theory Spec2Isabelle
  imports Main "HOL-Library.Word"
begin

unbundle bit_operations_syntax

section \<open>The SSH message builder of the Surface Aggregator driver (ssh_msgb.h)\<close>

subsection \<open>Memory, the buffer struct and the diagnostic channel\<close>

text \<open>
  Bytes and 16-bit values are machine words. A pointer is an address, a natural number:
  pointer arithmetic never wraps around (C leaves a wrapping pointer undefined). Memory maps
  every address to a byte, so a store outside the buffer is a store to some other address, as
  it is on the machine.
\<close>

type_synonym u8 = "8 word"
type_synonym u16 = "16 word"
type_synonym addr = nat
type_synonym memory = "addr \<Rightarrow> u8"

text \<open>
  \<^verbatim>\<open>struct msgbuf { u8 *begin; u8 *end; u8 *ptr; }\<close>. The fields \<^verbatim>\<open>begin\<close> and
  \<^verbatim>\<open>end\<close> carry a suffix, both being reserved words here.
\<close>

record msgbuf =
  begin_ptr :: addr
  end_ptr :: addr
  ptr :: addr

text \<open>
  The state the builder functions work on: the memory, the number of times
  \<^verbatim>\<open>WARN_ON\<close> has fired, and the one \<^verbatim>\<open>struct msgbuf\<close> they are given. The machine
  also fixes what its \<^verbatim>\<open>memcpy\<close> stores when source and destination overlap, which C leaves
  undefined and which differs between builds: \<open>memcpy_overlap dst src n m\<close> is the memory
  whose bytes at the destination such a copy leaves. No function changes this field, and every
  statement below holds whatever it is.
\<close>

record machine =
  mem :: memory
  warn_count :: nat
  msgb :: msgbuf
  memcpy_overlap :: "addr \<Rightarrow> addr \<Rightarrow> nat \<Rightarrow> memory \<Rightarrow> memory"

text \<open>\<^verbatim>\<open>WARN_ON(cond)\<close> with a true condition: one more report, nothing else changes.\<close>

definition WARN_ON_fired :: "machine \<Rightarrow> machine" where
  "WARN_ON_fired s = s\<lparr>warn_count := Suc (warn_count s)\<rparr>"

text \<open>The \<open>n\<close> bytes of memory that start at address \<open>p\<close>.\<close>

fun bytes_at :: "memory \<Rightarrow> addr \<Rightarrow> nat \<Rightarrow> u8 list" where
  "bytes_at m p 0 = []"
| "bytes_at m p (Suc n) = m p # bytes_at m (Suc p) n"

text \<open>\<^verbatim>\<open>put_unaligned_le16(val, p)\<close>: the low byte at \<open>p\<close>, the high byte at \<open>p + 1\<close>.\<close>

definition put_unaligned_le16 :: "u16 \<Rightarrow> addr \<Rightarrow> memory \<Rightarrow> memory" where
  "put_unaligned_le16 val p m = m(p := ucast val, p + 1 := ucast (drop_bit 8 val))"

text \<open>
  \<^verbatim>\<open>memcpy(dst, src, n)\<close> stores into the \<open>n\<close> bytes at \<open>dst\<close> and into no other
  byte. When the two regions do not overlap, these bytes become the \<open>n\<close> bytes at \<open>src\<close>.
  When they overlap, the bytes stored are those the machine's \<open>memcpy_overlap\<close> gives, passed
  in as \<open>ov\<close>.
\<close>

definition memcpy ::
  "(addr \<Rightarrow> addr \<Rightarrow> nat \<Rightarrow> memory \<Rightarrow> memory) \<Rightarrow> addr \<Rightarrow> addr \<Rightarrow> nat \<Rightarrow> memory \<Rightarrow> memory" where
  "memcpy ov dst src n m =
     (\<lambda>a. if dst \<le> a \<and> a < dst + n
          then (if src + n \<le> dst \<or> dst + n \<le> src then m (src + (a - dst))
                else ov dst src n m a)
          else m a)"

subsection \<open>What the builder takes from the protocol headers\<close>

text \<open>
  The constants \<^verbatim>\<open>SSH_MSG_SYN\<close>, \<^verbatim>\<open>SSH_FRAME_TYPE_*\<close>, \<^verbatim>\<open>SSH_PLD_TYPE_CMD\<close> and the
  checksum \<^verbatim>\<open>ssh_crc\<close> are declared in \<^verbatim>\<open>linux/surface_aggregator/serial_hub.h\<close>. The
  builder is parametric in them: the checksum is any function from a byte sequence to a 16-bit
  value.
\<close>

record ssh_protocol =
  SSH_MSG_SYN :: u16
  SSH_FRAME_TYPE_DATA_SEQ :: u8
  SSH_FRAME_TYPE_ACK :: u8
  SSH_FRAME_TYPE_NAK :: u8
  SSH_PLD_TYPE_CMD :: u8
  crc_of :: "u8 list \<Rightarrow> u16"

text \<open>\<^verbatim>\<open>ssh_crc(buf, len)\<close>: the checksum of the \<open>len\<close> bytes at \<open>buf\<close>.\<close>

definition ssh_crc :: "ssh_protocol \<Rightarrow> memory \<Rightarrow> addr \<Rightarrow> nat \<Rightarrow> u16" where
  "ssh_crc P m buf len = crc_of P (bytes_at m buf len)"

text \<open>
  Modelled from the spec: the declaration of \<^verbatim>\<open>struct ssh_frame\<close> (serial_hub.h) is
  missing. The frame header is 4 bytes: type (1 byte), payload length (2 bytes, little-endian),
  sequence number (1 byte), with no padding.
\<close>

definition sizeof_ssh_frame :: nat where
  "sizeof_ssh_frame = 4"

text \<open>
  Modelled from the spec: the declaration of \<^verbatim>\<open>struct ssh_command\<close> (serial_hub.h) is
  missing. The command header has the fields payload-type tag, target category, outbound target
  id, inbound target id, instance id, request id (2 bytes, little-endian) and command id, in
  this order, one byte each but for the request id, with no padding: 8 bytes.
\<close>

definition sizeof_ssh_command :: nat where
  "sizeof_ssh_command = 8"

text \<open>
  Modelled from the spec: the declaration of \<^verbatim>\<open>struct ssam_request\<close> (controller.h) is
  missing. A request bundles target category, target id, command id, instance id (one byte
  each), a payload pointer and a payload length that fits 16 bits. The field \<^verbatim>\<open>length\<close>
  carries a suffix.
\<close>

record ssam_request =
  target_category :: u8
  target_id :: u8
  command_id :: u8
  instance_id :: u8
  length_rqst :: u16
  payload :: addr

subsection \<open>The buffer primitives\<close>

text \<open>
  Each function takes the state and returns the new one. \<^verbatim>\<open>msgb_init\<close> overwrites the three
  pointers; \<^verbatim>\<open>msgb_bytes_used\<close> is \<open>ptr - begin\<close> (no operation moves \<open>ptr\<close> back, so
  the difference is never negative once the struct is initialised); \<^verbatim>\<open>msgb_push_u16\<close>
  returns early, after \<^verbatim>\<open>WARN_ON\<close>, when \<open>ptr + sizeof(u16) > end\<close>;
  \<^verbatim>\<open>msgb_push_buf\<close> is \<^verbatim>\<open>msgb->ptr = memcpy(msgb->ptr, buf, len) + len\<close>, with no check.
\<close>

definition msgb_init :: "addr \<Rightarrow> nat \<Rightarrow> machine \<Rightarrow> machine" where
  "msgb_init p cap s = s\<lparr>msgb := \<lparr>begin_ptr = p, end_ptr = p + cap, ptr = p\<rparr>\<rparr>"

definition msgb_bytes_used :: "machine \<Rightarrow> nat" where
  "msgb_bytes_used s = ptr (msgb s) - begin_ptr (msgb s)"

definition msgb_push_u16 :: "u16 \<Rightarrow> machine \<Rightarrow> machine" where
  "msgb_push_u16 val s =
     (if ptr (msgb s) + 2 > end_ptr (msgb s) then WARN_ON_fired s
      else s\<lparr>mem := put_unaligned_le16 val (ptr (msgb s)) (mem s),
             msgb := (msgb s)\<lparr>ptr := ptr (msgb s) + 2\<rparr>\<rparr>)"

definition msgb_push_syn :: "ssh_protocol \<Rightarrow> machine \<Rightarrow> machine" where
  "msgb_push_syn P s = msgb_push_u16 (SSH_MSG_SYN P) s"

definition msgb_push_buf :: "addr \<Rightarrow> nat \<Rightarrow> machine \<Rightarrow> machine" where
  "msgb_push_buf buf len s =
     s\<lparr>mem := memcpy (memcpy_overlap s) (ptr (msgb s)) buf len (mem s),
       msgb := (msgb s)\<lparr>ptr := ptr (msgb s) + len\<rparr>\<rparr>"

definition msgb_push_crc :: "ssh_protocol \<Rightarrow> addr \<Rightarrow> nat \<Rightarrow> machine \<Rightarrow> machine" where
  "msgb_push_crc P buf len s = msgb_push_u16 (ssh_crc P (mem s) buf len) s"

subsection \<open>The frame and message encoders\<close>

text \<open>
  \<^verbatim>\<open>msgb_push_frame\<close> remembers \<open>ptr\<close> as \<open>begin\<close>, returns early when the 4 bytes of
  the header do not fit, and else stores type, length (little-endian) and sequence number at
  the offsets 0, 1 and 3, advances \<open>ptr\<close> by 4 and pushes the checksum of the bytes from
  \<open>begin\<close> to \<open>ptr\<close>.
\<close>

definition msgb_push_frame :: "ssh_protocol \<Rightarrow> u8 \<Rightarrow> u16 \<Rightarrow> u8 \<Rightarrow> machine \<Rightarrow> machine" where
  "msgb_push_frame P ty len seq s =
     (let begin = ptr (msgb s) in
      if ptr (msgb s) + sizeof_ssh_frame > end_ptr (msgb s) then WARN_ON_fired s
      else
        let s1 = s\<lparr>mem := (put_unaligned_le16 len (begin + 1) ((mem s)(begin := ty)))
                            (begin + 3 := seq)\<rparr>;
            s2 = s1\<lparr>msgb := (msgb s1)\<lparr>ptr := ptr (msgb s1) + sizeof_ssh_frame\<rparr>\<rparr>
        in msgb_push_crc P begin (ptr (msgb s2) - begin) s2)"

definition msgb_push_ack :: "ssh_protocol \<Rightarrow> u8 \<Rightarrow> machine \<Rightarrow> machine" where
  "msgb_push_ack P seq s =
     (let s1 = msgb_push_syn P s;
          s2 = msgb_push_frame P (SSH_FRAME_TYPE_ACK P) 0 seq s1
      in msgb_push_crc P (ptr (msgb s2)) 0 s2)"

definition msgb_push_nak :: "ssh_protocol \<Rightarrow> machine \<Rightarrow> machine" where
  "msgb_push_nak P s =
     (let s1 = msgb_push_syn P s;
          s2 = msgb_push_frame P (SSH_FRAME_TYPE_NAK P) 0 0 s1
      in msgb_push_crc P (ptr (msgb s2)) 0 s2)"

text \<open>
  The second argument of \<^verbatim>\<open>msgb_push_frame\<close> is a \<^verbatim>\<open>u16\<close>: the sum
  \<^verbatim>\<open>sizeof(*cmd) + rqst->length\<close>, computed in \<^verbatim>\<open>size_t\<close>, is cut to 16 bits when it
  is passed.
\<close>

definition msgb_push_cmd :: "ssh_protocol \<Rightarrow> u8 \<Rightarrow> u16 \<Rightarrow> ssam_request \<Rightarrow> machine \<Rightarrow> machine" where
  "msgb_push_cmd P seq rqid rqst s =
     (let ty = SSH_FRAME_TYPE_DATA_SEQ P;
          s1 = msgb_push_syn P s;
          s2 = msgb_push_frame P ty
                 (word_of_nat (sizeof_ssh_command + unat (length_rqst rqst))) seq s1
      in if ptr (msgb s2) + sizeof_ssh_command > end_ptr (msgb s2) then WARN_ON_fired s2
         else
           let cmd_begin = ptr (msgb s2);
               m0 = mem s2;
               m1 = m0(cmd_begin := SSH_PLD_TYPE_CMD P);
               m2 = m1(cmd_begin + 1 := target_category rqst);
               m3 = m2(cmd_begin + 2 := target_id rqst);
               m4 = m3(cmd_begin + 3 := 0);
               m5 = m4(cmd_begin + 4 := instance_id rqst);
               m6 = put_unaligned_le16 rqid (cmd_begin + 5) m5;
               m7 = m6(cmd_begin + 7 := command_id rqst);
               s3 = s2\<lparr>mem := m7,
                       msgb := (msgb s2)\<lparr>ptr := ptr (msgb s2) + sizeof_ssh_command\<rparr>\<rparr>;
               s4 = msgb_push_buf (payload rqst) (unat (length_rqst rqst)) s3
           in msgb_push_crc P cmd_begin (ptr (msgb s4) - cmd_begin) s4)"

subsection \<open>Notions the statements use\<close>

text \<open>A 16-bit value as its two bytes on the wire, low byte first.\<close>

definition le16 :: "u16 \<Rightarrow> u8 list" where
  "le16 v = [ucast v, ucast (drop_bit 8 v)]"

text \<open>The number that the two bytes at \<open>p\<close> denote when read low byte first.\<close>

definition read_le16 :: "memory \<Rightarrow> addr \<Rightarrow> nat" where
  "read_le16 m p = unat (m p) + 256 * unat (m (Suc p))"

text \<open>The documented shape of the buffer struct: \<open>begin \<le> ptr \<le> end\<close>.\<close>

definition msgb_inv :: "msgbuf \<Rightarrow> bool" where
  "msgb_inv b \<longleftrightarrow> begin_ptr b \<le> ptr b \<and> ptr b \<le> end_ptr b"

text \<open>
  An operation that leads from \<open>s\<close> to \<open>s'\<close> stays within the buffer: the struct keeps
  its shape and its bounds, \<open>ptr\<close> has not moved back, every byte below the old \<open>ptr\<close> or
  at and beyond \<open>end\<close> (so every byte outside the buffer) is as before, and the number of
  bytes used is at most the capacity.
\<close>

definition stays_within :: "machine \<Rightarrow> machine \<Rightarrow> bool" where
  "stays_within s s' \<longleftrightarrow>
     msgb_inv (msgb s')
     \<and> begin_ptr (msgb s') = begin_ptr (msgb s) \<and> end_ptr (msgb s') = end_ptr (msgb s)
     \<and> ptr (msgb s) \<le> ptr (msgb s')
     \<and> (\<forall>a. a < ptr (msgb s) \<or> end_ptr (msgb s) \<le> a \<longrightarrow> mem s' a = mem s a)
     \<and> msgb_bytes_used s' \<le> end_ptr (msgb s) - begin_ptr (msgb s)"

text \<open>
  The two halves of \<^verbatim>\<open>msgb_push_cmd\<close> around its capacity check, named for the proofs: the
  SYN and the frame header with its checksum, and the stores into \<^verbatim>\<open>struct ssh_command\<close>
  followed by the advance of \<open>ptr\<close>.
\<close>

definition cmd_prefix :: "ssh_protocol \<Rightarrow> u8 \<Rightarrow> ssam_request \<Rightarrow> machine \<Rightarrow> machine" where
  "cmd_prefix P seq r s = msgb_push_frame P (SSH_FRAME_TYPE_DATA_SEQ P)
       (word_of_nat (sizeof_ssh_command + unat (length_rqst r))) seq (msgb_push_syn P s)"

definition cmd_struct :: "ssh_protocol \<Rightarrow> u16 \<Rightarrow> ssam_request \<Rightarrow> machine \<Rightarrow> machine" where
  "cmd_struct P rqid r s2 =
     s2\<lparr>mem := (put_unaligned_le16 rqid (ptr (msgb s2) + 5)
                 ((mem s2)(ptr (msgb s2) := SSH_PLD_TYPE_CMD P,
                           ptr (msgb s2) + 1 := target_category r,
                           ptr (msgb s2) + 2 := target_id r,
                           ptr (msgb s2) + 3 := 0,
                           ptr (msgb s2) + 4 := instance_id r)))
                 (ptr (msgb s2) + 7 := command_id r),
        msgb := (msgb s2)\<lparr>ptr := ptr (msgb s2) + sizeof_ssh_command\<rparr>\<rparr>"

text \<open>
  Modelled from the spec: the test constants of its section 8 (the protocol headers are
  missing), \<open>SYN = 0xAAAA\<close>, \<open>ACK_TYPE = 0x01\<close>, \<open>NAK_TYPE = 0x02\<close>,
  \<open>CMD_TYPE = 0x03\<close>, and its stand-in checksum, the sum of the bytes modulo 65536. The
  payload-type tag, which the spec leaves open, is \<open>0x80\<close> here.
\<close>

definition test_crc :: "u8 list \<Rightarrow> u16" where
  "test_crc bs = sum_list (map ucast bs)"

definition test_protocol :: ssh_protocol where
  "test_protocol = \<lparr>SSH_MSG_SYN = 0xAAAA, SSH_FRAME_TYPE_DATA_SEQ = 0x03,
     SSH_FRAME_TYPE_ACK = 0x01, SSH_FRAME_TYPE_NAK = 0x02, SSH_PLD_TYPE_CMD = 0x80,
     crc_of = test_crc\<rparr>"

text \<open>
  A machine whose memory is zero but for the two payload bytes \<open>0xDE, 0xAD\<close> of the spec's
  command scenario, stored at address 100, and the request of that scenario. Its \<^verbatim>\<open>memcpy\<close>
  leaves an overlapping destination as it is; no example below copies between regions that
  overlap.
\<close>

definition test_machine :: machine where
  "test_machine = \<lparr>mem = (\<lambda>a. if a = 100 then 0xDE else if a = 101 then 0xAD else 0),
     warn_count = 0, msgb = \<lparr>begin_ptr = 0, end_ptr = 0, ptr = 0\<rparr>,
     memcpy_overlap = (\<lambda>dst src n m. m)\<rparr>"

text \<open>The same machine with a buffer of 64 bytes at address 0, of which 10 are in use.\<close>

definition used_machine :: machine where
  "used_machine = test_machine\<lparr>msgb := \<lparr>begin_ptr = 0, end_ptr = 64, ptr = 10\<rparr>\<rparr>"

definition test_request :: ssam_request where
  "test_request = \<lparr>target_category = 0x02, target_id = 0x01, command_id = 0x09,
     instance_id = 0x00, length_rqst = 2, payload = 100\<rparr>"

text \<open>
  Two more requests: one with the longest payload a 16-bit length can announce, and one whose
  payload pointer is the start of the buffer that the message is built in.
\<close>

definition long_request :: ssam_request where
  "long_request = \<lparr>target_category = 0x02, target_id = 0x01, command_id = 0x09,
     instance_id = 0x00, length_rqst = 0xFFFF, payload = 100000\<rparr>"

definition alias_request :: ssam_request where
  "alias_request = \<lparr>target_category = 0x02, target_id = 0x01, command_id = 0x09,
     instance_id = 0x00, length_rqst = 2, payload = 0\<rparr>"

section \<open>Properties\<close>

subsection \<open>Reading memory\<close>

lemmas msgb_defs = msgb_init_def msgb_bytes_used_def msgb_push_u16_def msgb_push_syn_def
  msgb_push_buf_def msgb_push_crc_def msgb_push_frame_def msgb_push_ack_def msgb_push_nak_def
  msgb_push_cmd_def WARN_ON_fired_def put_unaligned_le16_def ssh_crc_def sizeof_ssh_frame_def
  sizeof_ssh_command_def

lemmas test_defs = test_protocol_def test_machine_def test_request_def test_crc_def
  used_machine_def

lemma bytes_at_numeral [simp]:
  "bytes_at m p (numeral k) = m p # bytes_at m (Suc p) (pred_numeral k)"
  by (simp add: numeral_eq_Suc)

lemma length_bytes_at [simp]: "length (bytes_at m p n) = n"
  by (induction n arbitrary: p) simp_all

lemma nth_bytes_at: "i < n \<Longrightarrow> bytes_at m p n ! i = m (p + i)"
proof (induction n arbitrary: p i)
  case 0
  then show ?case by simp
next
  case (Suc n)
  then show ?case by (cases i) simp_all
qed

lemma bytes_at_cong:
  "(\<And>i. i < n \<Longrightarrow> m (p + i) = m' (q + i)) \<Longrightarrow> bytes_at m p n = bytes_at m' q n"
  by (rule nth_equalityI) (simp_all add: nth_bytes_at)

lemma bytes_at_add: "bytes_at m p (a + b) = bytes_at m p a @ bytes_at m (p + a) b"
  by (induction a arbitrary: p) simp_all

lemma bytes_at_upd_outside [simp]:
  "a < p \<or> p + n \<le> a \<Longrightarrow> bytes_at (m(a := v)) p n = bytes_at m p n"
  by (rule bytes_at_cong) auto


subsection \<open>Reading a 16-bit field\<close>

lemma read_le16_bytes:
  fixes v :: u16
  assumes "m p = ucast v" and "m (Suc p) = ucast (drop_bit 8 v)"
  shows "read_le16 m p = unat v"
proof -
  have lt: "unat v < 65536"
    using unsigned_less [of v, where ?'a = nat] by simp
  have lo: "unat (ucast v :: u8) = unat v mod 256"
    by (simp add: unsigned_ucast_eq take_bit_eq_mod)
  have "unat (drop_bit 8 v) = unat v div 256"
    by (simp add: drop_bit_eq_div unat_div_distrib)
  moreover have "unat (ucast (drop_bit 8 v) :: u8) = unat (drop_bit 8 v) mod 256"
    by (simp only: unsigned_ucast_eq take_bit_eq_mod) simp
  moreover have "unat v div 256 < 256"
    using lt by simp
  ultimately have hi: "unat (ucast (drop_bit 8 v) :: u8) = unat v div 256"
    by simp
  show ?thesis
    unfolding read_le16_def assms lo hi by simp
qed

lemma read_le16_of_nat:
  assumes "m p = ucast (word_of_nat n :: u16)"
    and "m (Suc p) = ucast (drop_bit 8 (word_of_nat n :: u16))"
  shows "read_le16 m p = n mod 65536"
proof -
  have "read_le16 m p = unat (word_of_nat n :: u16)"
    using assms by (rule read_le16_bytes)
  also have "\<dots> = n mod 65536"
    by (simp only: unat_of_nat) simp
  finally show ?thesis .
qed

subsection \<open>The steps of a command message\<close>

lemma push_cmd_steps:
  "msgb_push_cmd P seq rqid r s =
     (if ptr (msgb (cmd_prefix P seq r s)) + sizeof_ssh_command > end_ptr (msgb (cmd_prefix P seq r s))
      then WARN_ON_fired (cmd_prefix P seq r s)
      else msgb_push_crc P (ptr (msgb (cmd_prefix P seq r s)))
             (ptr (msgb (msgb_push_buf (payload r) (unat (length_rqst r))
                            (cmd_struct P rqid r (cmd_prefix P seq r s))))
                - ptr (msgb (cmd_prefix P seq r s)))
             (msgb_push_buf (payload r) (unat (length_rqst r))
                (cmd_struct P rqid r (cmd_prefix P seq r s))))"
  by (simp add: msgb_push_cmd_def cmd_prefix_def cmd_struct_def Let_def)

lemma cmd_prefix_ptr:
  "end_ptr (msgb (cmd_prefix P seq r s)) = end_ptr (msgb s)
   \<and> (ptr (msgb (cmd_prefix P seq r s)) + sizeof_ssh_command \<le> end_ptr (msgb s)
        \<longleftrightarrow> ptr (msgb s) + 8 + sizeof_ssh_command \<le> end_ptr (msgb s))
   \<and> (ptr (msgb s) + 8 \<le> end_ptr (msgb s) \<longrightarrow>
        ptr (msgb (cmd_prefix P seq r s)) = ptr (msgb s) + 8)"
  by (auto simp: cmd_prefix_def msgb_push_syn_def msgb_push_u16_def msgb_push_frame_def
      msgb_push_crc_def WARN_ON_fired_def Let_def sizeof_ssh_frame_def sizeof_ssh_command_def)

lemma cmd_length_bytes:
  assumes "ptr (msgb s) + 2 + sizeof_ssh_frame \<le> end_ptr (msgb s)"
  shows "mem (cmd_prefix P seq r s) (ptr (msgb s) + 3)
      = ucast (word_of_nat (sizeof_ssh_command + unat (length_rqst r)) :: u16)"
    and "mem (cmd_prefix P seq r s) (Suc (ptr (msgb s) + 3))
      = ucast (drop_bit 8 (word_of_nat (sizeof_ssh_command + unat (length_rqst r)) :: u16))"
    and "ptr (msgb s) + 6 \<le> ptr (msgb (cmd_prefix P seq r s))"
  using assms
  by (simp_all add: cmd_prefix_def msgb_push_syn_def msgb_push_u16_def msgb_push_frame_def
      msgb_push_crc_def WARN_ON_fired_def Let_def sizeof_ssh_frame_def put_unaligned_le16_def)

lemma push_cmd_keeps_prefix:
  "a < ptr (msgb (cmd_prefix P seq r s)) \<Longrightarrow>
     mem (msgb_push_cmd P seq rqid r s) a = mem (cmd_prefix P seq r s) a"
  by (simp add: push_cmd_steps msgb_push_crc_def msgb_push_u16_def msgb_push_buf_def
      cmd_struct_def memcpy_def WARN_ON_fired_def put_unaligned_le16_def sizeof_ssh_command_def)

lemma cmd_length_field:
  assumes "ptr (msgb s) + 2 + sizeof_ssh_frame \<le> end_ptr (msgb s)"
  shows "read_le16 (mem (msgb_push_cmd P seq rqid r s)) (ptr (msgb s) + 3)
           = (sizeof_ssh_command + unat (length_rqst r)) mod 65536"
proof -
  let ?m = "mem (msgb_push_cmd P seq rqid r s)"
  let ?v = "word_of_nat (sizeof_ssh_command + unat (length_rqst r)) :: u16"
  note b = cmd_length_bytes [OF assms, of P seq r]
  from b(3) have "?m (ptr (msgb s) + 3) = mem (cmd_prefix P seq r s) (ptr (msgb s) + 3)"
    and "?m (Suc (ptr (msgb s) + 3)) = mem (cmd_prefix P seq r s) (Suc (ptr (msgb s) + 3))"
    by (simp_all add: push_cmd_keeps_prefix)
  with b(1,2) have "?m (ptr (msgb s) + 3) = ucast ?v"
    and "?m (Suc (ptr (msgb s) + 3)) = ucast (drop_bit 8 ?v)"
    by simp_all
  then show ?thesis by (rule read_le16_of_nat)
qed

lemma cmd_header_bytes:
  "ptr (msgb s) + 8 + sizeof_ssh_command \<le> end_ptr (msgb s) \<Longrightarrow>
   bytes_at (mem (msgb_push_cmd P seq rqid r s)) (ptr (msgb s) + 8) 8
    = [SSH_PLD_TYPE_CMD P, target_category r, target_id r, 0, instance_id r] @ le16 rqid
      @ [command_id r]"
  by (simp add: msgb_defs Let_def le16_def memcpy_def)

lemma cmd_payload_bytes:
  "ptr (msgb s) + 8 + sizeof_ssh_command \<le> end_ptr (msgb s) \<Longrightarrow>
   payload r + unat (length_rqst r) \<le> ptr (msgb s)
     \<or> ptr (msgb s) + 16 + unat (length_rqst r) \<le> payload r \<Longrightarrow>
   bytes_at (mem (msgb_push_cmd P seq rqid r s)) (ptr (msgb s) + 16) (unat (length_rqst r))
    = bytes_at (mem s) (payload r) (unat (length_rqst r))"
  by (rule bytes_at_cong) (auto simp: msgb_defs Let_def memcpy_def)

lemma cmd_split:
  "bytes_at m (buf + 8) (sizeof_ssh_command + n)
     = bytes_at m (buf + 8) 8 @ bytes_at m (buf + 8 + sizeof_ssh_command) n"
  unfolding sizeof_ssh_command_def by (rule bytes_at_add)

lemma cmd_abort:
  assumes "ptr (msgb s) + 8 \<le> end_ptr (msgb s)"
    and "end_ptr (msgb s) < ptr (msgb s) + 8 + sizeof_ssh_command"
  shows "msgb_push_cmd P seq rqid r s = WARN_ON_fired (cmd_prefix P seq r s)"
    and "mem (msgb_push_cmd P seq rqid r s) (ptr (msgb s) + 3)
          = ucast (word_of_nat (sizeof_ssh_command + unat (length_rqst r)) :: u16)"
    and "mem (msgb_push_cmd P seq rqid r s) (Suc (ptr (msgb s) + 3))
          = ucast (drop_bit 8 (word_of_nat (sizeof_ssh_command + unat (length_rqst r)) :: u16))"
  using assms by (simp_all add: msgb_defs cmd_prefix_def Let_def)

subsection \<open>Staying within the buffer\<close>

lemma stays_within_refl: "msgb_inv (msgb s) \<Longrightarrow> stays_within s s"
  by (auto simp: stays_within_def msgb_inv_def msgb_bytes_used_def)

lemma stays_within_trans:
  "stays_within s s' \<Longrightarrow> stays_within s' s'' \<Longrightarrow> stays_within s s''"
  by (auto simp: stays_within_def msgb_inv_def msgb_bytes_used_def)

lemma stays_within_warn:
  "stays_within s s' \<Longrightarrow> stays_within s (WARN_ON_fired s')"
  by (auto simp: stays_within_def msgb_inv_def msgb_bytes_used_def WARN_ON_fired_def)

lemma within_inv: "stays_within s s' \<Longrightarrow> msgb_inv (msgb s')"
  by (simp add: stays_within_def)

lemma push_u16_within: "msgb_inv (msgb s) \<Longrightarrow> stays_within s (msgb_push_u16 val s)"
  by (auto simp: stays_within_def msgb_inv_def msgb_bytes_used_def msgb_push_u16_def
      WARN_ON_fired_def put_unaligned_le16_def)

lemma push_crc_within: "msgb_inv (msgb s) \<Longrightarrow> stays_within s (msgb_push_crc P buf len s)"
  unfolding msgb_push_crc_def by (rule push_u16_within)

lemma push_syn_within: "msgb_inv (msgb s) \<Longrightarrow> stays_within s (msgb_push_syn P s)"
  unfolding msgb_push_syn_def by (rule push_u16_within)

lemma push_frame_within:
  assumes "msgb_inv (msgb s)"
  shows "stays_within s (msgb_push_frame P ty len seq s)"
proof (cases "ptr (msgb s) + sizeof_ssh_frame > end_ptr (msgb s)")
  case True
  then show ?thesis
    using assms by (simp add: msgb_push_frame_def stays_within_warn stays_within_refl)
next
  case False
  define s2 where "s2 = s\<lparr>mem := (put_unaligned_le16 len (ptr (msgb s) + 1)
                                    ((mem s)(ptr (msgb s) := ty)))
                            (ptr (msgb s) + 3 := seq),
                  msgb := (msgb s)\<lparr>ptr := ptr (msgb s) + sizeof_ssh_frame\<rparr>\<rparr>"
  have 1: "stays_within s s2"
    using assms False
    by (auto simp: s2_def stays_within_def msgb_inv_def msgb_bytes_used_def
        put_unaligned_le16_def sizeof_ssh_frame_def)
  then have "stays_within s2 (msgb_push_crc P (ptr (msgb s)) (ptr (msgb s2) - ptr (msgb s)) s2)"
    by (intro push_crc_within within_inv)
  moreover have "msgb_push_frame P ty len seq s
      = msgb_push_crc P (ptr (msgb s)) (ptr (msgb s2) - ptr (msgb s)) s2"
    using False by (simp add: msgb_push_frame_def Let_def s2_def)
  ultimately show ?thesis
    using 1 by (simp add: stays_within_trans)
qed

lemma push_ack_within:
  assumes "msgb_inv (msgb s)"
  shows "stays_within s (msgb_push_ack P seq s)"
proof -
  let ?s1 = "msgb_push_syn P s"
  let ?s2 = "msgb_push_frame P (SSH_FRAME_TYPE_ACK P) 0 seq ?s1"
  have 1: "stays_within s ?s1" using assms by (rule push_syn_within)
  have 2: "stays_within ?s1 ?s2" using 1 by (intro push_frame_within within_inv)
  have 3: "stays_within ?s2 (msgb_push_crc P (ptr (msgb ?s2)) 0 ?s2)"
    using 2 by (intro push_crc_within within_inv)
  show ?thesis
    unfolding msgb_push_ack_def Let_def
    using 1 2 3 by (blast intro: stays_within_trans)
qed

lemma push_nak_within:
  assumes "msgb_inv (msgb s)"
  shows "stays_within s (msgb_push_nak P s)"
proof -
  let ?s1 = "msgb_push_syn P s"
  let ?s2 = "msgb_push_frame P (SSH_FRAME_TYPE_NAK P) 0 0 ?s1"
  have 1: "stays_within s ?s1" using assms by (rule push_syn_within)
  have 2: "stays_within ?s1 ?s2" using 1 by (intro push_frame_within within_inv)
  have 3: "stays_within ?s2 (msgb_push_crc P (ptr (msgb ?s2)) 0 ?s2)"
    using 2 by (intro push_crc_within within_inv)
  show ?thesis
    unfolding msgb_push_nak_def Let_def
    using 1 2 3 by (blast intro: stays_within_trans)
qed

lemma push_buf_within:
  "msgb_inv (msgb s) \<Longrightarrow> ptr (msgb s) + n \<le> end_ptr (msgb s) \<Longrightarrow>
     stays_within s (msgb_push_buf src n s)"
  by (auto simp: stays_within_def msgb_inv_def msgb_bytes_used_def msgb_push_buf_def memcpy_def)

lemma push_buf_inv_iff:
  "msgb_inv (msgb s) \<Longrightarrow>
     msgb_inv (msgb (msgb_push_buf src n s)) \<longleftrightarrow> ptr (msgb s) + n \<le> end_ptr (msgb s)"
  by (auto simp: msgb_inv_def msgb_push_buf_def)

lemma cmd_prefix_within:
  assumes "msgb_inv (msgb s)"
  shows "stays_within s (cmd_prefix P seq r s)"
proof -
  have 1: "stays_within s (msgb_push_syn P s)" using assms by (rule push_syn_within)
  then have "stays_within (msgb_push_syn P s) (cmd_prefix P seq r s)"
    unfolding cmd_prefix_def by (intro push_frame_within within_inv)
  with 1 show ?thesis by (rule stays_within_trans)
qed

lemma cmd_struct_within:
  "msgb_inv (msgb s2) \<Longrightarrow> ptr (msgb s2) + sizeof_ssh_command \<le> end_ptr (msgb s2) \<Longrightarrow>
     stays_within s2 (cmd_struct P rqid r s2)"
  by (auto simp: stays_within_def msgb_inv_def msgb_bytes_used_def cmd_struct_def
      put_unaligned_le16_def sizeof_ssh_command_def)

lemma push_u16_ptr_beyond:
  "end_ptr (msgb s) < ptr (msgb s) \<Longrightarrow> msgb (msgb_push_u16 v s) = msgb s"
  by (simp add: msgb_push_u16_def WARN_ON_fired_def)

lemma push_cmd_within:
  assumes inv: "msgb_inv (msgb s)"
    and c: "end_ptr (msgb s) < ptr (msgb s) + 8 + sizeof_ssh_command
        \<or> ptr (msgb s) + 8 + sizeof_ssh_command + unat (length_rqst r) \<le> end_ptr (msgb s)"
  shows "stays_within s (msgb_push_cmd P seq rqid r s)"
proof -
  let ?s2 = "cmd_prefix P seq r s"
  let ?s3 = "cmd_struct P rqid r ?s2"
  let ?n = "unat (length_rqst r)"
  let ?s4 = "msgb_push_buf (payload r) ?n ?s3"
  have w2: "stays_within s ?s2" using inv by (rule cmd_prefix_within)
  have e2: "end_ptr (msgb ?s2) = end_ptr (msgb s)" using cmd_prefix_ptr [of P seq r s] by simp
  show ?thesis
  proof (cases "end_ptr (msgb s) < ptr (msgb s) + 8 + sizeof_ssh_command")
    case True
    then have "end_ptr (msgb ?s2) < ptr (msgb ?s2) + sizeof_ssh_command"
      using cmd_prefix_ptr [of P seq r s] by auto
    then have "msgb_push_cmd P seq rqid r s = WARN_ON_fired ?s2"
      by (simp add: push_cmd_steps)
    with w2 show ?thesis by (simp add: stays_within_warn)
  next
    case False
    with c have fit: "ptr (msgb s) + 8 + sizeof_ssh_command + ?n \<le> end_ptr (msgb s)" by simp
    then have p2: "ptr (msgb ?s2) = ptr (msgb s) + 8"
      using cmd_prefix_ptr [of P seq r s] by simp
    have room: "ptr (msgb ?s2) + sizeof_ssh_command \<le> end_ptr (msgb ?s2)"
      using fit p2 e2 by simp
    have w3: "stays_within ?s2 ?s3"
      using w2 room by (intro cmd_struct_within within_inv)
    have "ptr (msgb ?s3) + ?n \<le> end_ptr (msgb ?s3)"
      using fit p2 e2 by (simp add: cmd_struct_def)
    then have w4: "stays_within ?s3 ?s4"
      using w3 by (intro push_buf_within within_inv)
    have w5: "stays_within ?s4
        (msgb_push_crc P (ptr (msgb ?s2)) (ptr (msgb ?s4) - ptr (msgb ?s2)) ?s4)"
      using w4 by (intro push_crc_within within_inv)
    have "msgb_push_cmd P seq rqid r s
        = msgb_push_crc P (ptr (msgb ?s2)) (ptr (msgb ?s4) - ptr (msgb ?s2)) ?s4"
      using room by (simp add: push_cmd_steps)
    with w2 w3 w4 w5 show ?thesis
      by (metis stays_within_trans)
  qed
qed

lemma push_cmd_overrun:
  assumes hdr: "ptr (msgb s) + 8 + sizeof_ssh_command \<le> end_ptr (msgb s)"
    and over: "end_ptr (msgb s) < ptr (msgb s) + 8 + sizeof_ssh_command + unat (length_rqst r)"
  shows "\<not> msgb_inv (msgb (msgb_push_cmd P seq rqid r s))"
proof -
  let ?s2 = "cmd_prefix P seq r s"
  let ?n = "unat (length_rqst r)"
  let ?s4 = "msgb_push_buf (payload r) ?n (cmd_struct P rqid r ?s2)"
  have e2: "end_ptr (msgb ?s2) = end_ptr (msgb s)" using cmd_prefix_ptr [of P seq r s] by simp
  from hdr have p2: "ptr (msgb ?s2) = ptr (msgb s) + 8"
    using cmd_prefix_ptr [of P seq r s] by simp
  have room: "ptr (msgb ?s2) + sizeof_ssh_command \<le> end_ptr (msgb ?s2)"
    using hdr p2 e2 by simp
  have p4: "ptr (msgb ?s4) = ptr (msgb s) + 8 + sizeof_ssh_command + ?n"
    and e4: "end_ptr (msgb ?s4) = end_ptr (msgb s)"
    using p2 e2 by (simp_all add: msgb_push_buf_def cmd_struct_def)
  have "msgb_push_cmd P seq rqid r s
      = msgb_push_crc P (ptr (msgb ?s2)) (ptr (msgb ?s4) - ptr (msgb ?s2)) ?s4"
    using room by (simp add: push_cmd_steps)
  moreover have "msgb (msgb_push_crc P (ptr (msgb ?s2)) (ptr (msgb ?s4) - ptr (msgb ?s2)) ?s4)
      = msgb ?s4"
    unfolding msgb_push_crc_def using over p4 e4 by (intro push_u16_ptr_beyond) simp
  ultimately have "msgb (msgb_push_cmd P seq rqid r s) = msgb ?s4" by simp
  with over p4 e4 show ?thesis by (simp add: msgb_inv_def)
qed

subsection \<open>Length of a complete message\<close>

text \<open>
  Claim C1. One call of \<^verbatim>\<open>msgb_push_ack\<close>, \<^verbatim>\<open>msgb_push_nak\<close> or \<^verbatim>\<open>msgb_push_cmd\<close>
  on a buffer just initialised with room for the whole message leaves
  \<^verbatim>\<open>msgb_bytes_used\<close> at \<open>2 + 4 + 2 + payload_length + 2\<close>, where the payload length is 0
  for ACK and NAK and \<open>sizeof(struct ssh_command) + rqst->length\<close> for a command.
\<close>

theorem message_length:
  "(2 + 4 + 2 + 0 + 2 \<le> cap \<longrightarrow>
      msgb_bytes_used (msgb_push_ack P seq (msgb_init buf cap s)) = 2 + 4 + 2 + 0 + 2)
   \<and> (2 + 4 + 2 + 0 + 2 \<le> cap \<longrightarrow>
      msgb_bytes_used (msgb_push_nak P (msgb_init buf cap s)) = 2 + 4 + 2 + 0 + 2)
   \<and> (2 + 4 + 2 + (sizeof_ssh_command + unat (length_rqst r)) + 2 \<le> cap \<longrightarrow>
      msgb_bytes_used (msgb_push_cmd P seq rqid r (msgb_init buf cap s))
        = 2 + 4 + 2 + (sizeof_ssh_command + unat (length_rqst r)) + 2)"
  by (simp add: msgb_defs Let_def)

theorem message_length_witness:
  "(2 + 4 + 2 + 0 + 2 \<le> (16::nat))
   \<and> msgb_bytes_used (msgb_push_ack test_protocol 5 (msgb_init 0 16 test_machine)) = 10
   \<and> msgb_bytes_used (msgb_push_nak test_protocol (msgb_init 0 16 test_machine)) = 10
   \<and> (2 + 4 + 2 + (sizeof_ssh_command + unat (length_rqst test_request)) + 2 \<le> (32::nat))
   \<and> msgb_bytes_used (msgb_push_cmd test_protocol 1 7 test_request (msgb_init 0 32 test_machine)) = 20"
  using message_length [where cap = 16 and P = test_protocol and seq = 5 and buf = 0
        and s = test_machine]
    message_length [where cap = 32 and P = test_protocol and seq = 1 and buf = 0
        and s = test_machine and r = test_request and rqid = 7]
  by (simp add: test_request_def sizeof_ssh_command_def)

subsection \<open>The checked 16-bit append\<close>

text \<open>
  Claim C6. \<^verbatim>\<open>msgb_push_u16(value)\<close>, for every state and value: if \<open>ptr + 2 > end\<close> no byte
  of memory changes and the buffer struct, \<open>ptr\<close> included, is unchanged; the one effect is a
  report of \<^verbatim>\<open>WARN_ON\<close>. Otherwise the two bytes at \<open>ptr\<close> become the value, low byte
  first, no other byte changes, \<open>ptr\<close> advances by exactly 2 and nothing is reported.
\<close>

theorem push_u16_checked:
  "(ptr (msgb s) + 2 > end_ptr (msgb s) \<longrightarrow>
      mem (msgb_push_u16 val s) = mem s \<and> msgb (msgb_push_u16 val s) = msgb s
      \<and> warn_count (msgb_push_u16 val s) = Suc (warn_count s))
   \<and> (\<not> ptr (msgb s) + 2 > end_ptr (msgb s) \<longrightarrow>
      bytes_at (mem (msgb_push_u16 val s)) (ptr (msgb s)) 2 = le16 val
      \<and> (a \<noteq> ptr (msgb s) \<and> a \<noteq> ptr (msgb s) + 1 \<longrightarrow> mem (msgb_push_u16 val s) a = mem s a)
      \<and> ptr (msgb (msgb_push_u16 val s)) = ptr (msgb s) + 2
      \<and> begin_ptr (msgb (msgb_push_u16 val s)) = begin_ptr (msgb s)
      \<and> end_ptr (msgb (msgb_push_u16 val s)) = end_ptr (msgb s)
      \<and> warn_count (msgb_push_u16 val s) = warn_count s)"
  by (simp add: msgb_defs le16_def)

theorem push_u16_checked_witness:
  "ptr (msgb (msgb_init 0 1 test_machine)) + 2 > end_ptr (msgb (msgb_init 0 1 test_machine))
   \<and> mem (msgb_push_u16 0xBEEF (msgb_init 0 1 test_machine)) = mem (msgb_init 0 1 test_machine)
   \<and> ptr (msgb (msgb_push_u16 0xBEEF (msgb_init 0 1 test_machine))) = 0
   \<and> warn_count (msgb_push_u16 0xBEEF (msgb_init 0 1 test_machine)) = 1
   \<and> \<not> ptr (msgb (msgb_init 0 16 test_machine)) + 2 > end_ptr (msgb (msgb_init 0 16 test_machine))
   \<and> bytes_at (mem (msgb_push_u16 0xBEEF (msgb_init 0 16 test_machine))) 0 2 = [0xEF, 0xBE]
   \<and> (2 \<noteq> ptr (msgb (msgb_init 0 16 test_machine))
        \<and> 2 \<noteq> ptr (msgb (msgb_init 0 16 test_machine)) + 1)
   \<and> mem (msgb_push_u16 0xBEEF (msgb_init 0 16 test_machine)) 2 = 0
   \<and> ptr (msgb (msgb_push_u16 0xBEEF (msgb_init 0 16 test_machine))) = 2
   \<and> warn_count (msgb_push_u16 0xBEEF (msgb_init 0 16 test_machine)) = 0"
  using push_u16_checked [where s = "msgb_init 0 1 test_machine" and val = "0xBEEF"]
    push_u16_checked [where s = "msgb_init 0 16 test_machine" and val = "0xBEEF" and a = 2]
  by (simp add: msgb_init_def le16_def test_machine_def)

subsection \<open>A frame header that does not fit\<close>

text \<open>
  Claim C7. When fewer than 4 bytes (the size of the frame header) remain,
  \<^verbatim>\<open>msgb_push_frame\<close> writes no byte, appends no checksum and leaves the buffer struct, hence
  \<open>ptr\<close>, unchanged; it only reports through \<^verbatim>\<open>WARN_ON\<close>. In particular after
  \<^verbatim>\<open>msgb_init(buf, 3)\<close> the call \<^verbatim>\<open>msgb_push_frame(ACK, 0, 0)\<close> leaves
  \<^verbatim>\<open>msgb_bytes_used\<close> at 0 and the whole memory as it was.
\<close>

theorem push_frame_no_room:
  "(end_ptr (msgb s) - ptr (msgb s) < sizeof_ssh_frame \<longrightarrow>
      mem (msgb_push_frame P ty len seq s) = mem s
      \<and> msgb (msgb_push_frame P ty len seq s) = msgb s
      \<and> warn_count (msgb_push_frame P ty len seq s) = Suc (warn_count s))
   \<and> msgb_bytes_used (msgb_push_frame P (SSH_FRAME_TYPE_ACK P) 0 0 (msgb_init buf 3 s)) = 0
   \<and> mem (msgb_push_frame P (SSH_FRAME_TYPE_ACK P) 0 0 (msgb_init buf 3 s)) = mem s
   \<and> warn_count (msgb_push_frame P (SSH_FRAME_TYPE_ACK P) 0 0 (msgb_init buf 3 s))
       = Suc (warn_count s)"
  by (auto simp add: msgb_defs Let_def)

theorem push_frame_no_room_witness:
  "end_ptr (msgb (msgb_push_syn test_protocol (msgb_init 0 5 test_machine)))
      - ptr (msgb (msgb_push_syn test_protocol (msgb_init 0 5 test_machine))) < sizeof_ssh_frame
   \<and> mem (msgb_push_frame test_protocol 1 0 0 (msgb_push_syn test_protocol (msgb_init 0 5 test_machine)))
       = mem (msgb_push_syn test_protocol (msgb_init 0 5 test_machine))
   \<and> msgb_bytes_used
        (msgb_push_frame test_protocol 1 0 0 (msgb_push_syn test_protocol (msgb_init 0 5 test_machine)))
       = 2"
  using push_frame_no_room [where s = "msgb_push_syn test_protocol (msgb_init 0 5 test_machine)"
      and P = test_protocol and ty = 1 and len = 0 and seq = 0]
  by (simp add: msgb_init_def msgb_push_syn_def msgb_push_u16_def msgb_bytes_used_def
      sizeof_ssh_frame_def)

subsection \<open>The unchecked raw append\<close>



subsection \<open>The acknowledgement scenarios\<close>

text \<open>
  Claim C9. After \<^verbatim>\<open>msgb_init(buf, 16); msgb_push_ack(seq = 5)\<close> the buffer holds exactly
  the SYN constant (2 bytes, little-endian), the frame bytes \<open>[ACK, 0x00, 0x00, 0x05]\<close>, the
  2-byte checksum of these four bytes and the 2-byte checksum of the empty range, and
  \<^verbatim>\<open>msgb_bytes_used\<close> is 10; \<^verbatim>\<open>msgb_push_nak\<close> gives the same shape with the frame type
  NAK and the sequence number \<open>0x00\<close>.
\<close>

theorem ack_nak_scenario:
  "bytes_at (mem (msgb_push_ack P 5 (msgb_init buf 16 s))) buf 10
     = le16 (SSH_MSG_SYN P) @ [SSH_FRAME_TYPE_ACK P, 0x00, 0x00, 0x05]
       @ le16 (crc_of P [SSH_FRAME_TYPE_ACK P, 0x00, 0x00, 0x05]) @ le16 (crc_of P [])
   \<and> msgb_bytes_used (msgb_push_ack P 5 (msgb_init buf 16 s)) = 10
   \<and> bytes_at (mem (msgb_push_nak P (msgb_init buf 16 s))) buf 10
     = le16 (SSH_MSG_SYN P) @ [SSH_FRAME_TYPE_NAK P, 0x00, 0x00, 0x00]
       @ le16 (crc_of P [SSH_FRAME_TYPE_NAK P, 0x00, 0x00, 0x00]) @ le16 (crc_of P [])
   \<and> msgb_bytes_used (msgb_push_nak P (msgb_init buf 16 s)) = 10"
  by (simp add: msgb_defs Let_def le16_def)

subsection \<open>The payload checksum\<close>

text \<open>
  Claim C3. In every message that \<^verbatim>\<open>msgb_push_ack\<close>, \<^verbatim>\<open>msgb_push_nak\<close> or
  \<^verbatim>\<open>msgb_push_cmd\<close> appends, from any state of the buffer with room for the message, the
  last 2 bytes are the little-endian checksum of the frame payload: for ACK and NAK the
  checksum of the empty range; for a command one checksum over the range that starts where
  \<open>ptr\<close> stood when the command header was begun (8 bytes after its value at the call,
  wherever the buffer begins) and ends at \<open>ptr\<close> as it is before the checksum is appended,
  which is the 8 bytes of the command header followed by the bytes in the place of the
  application payload.
\<close>

theorem payload_checksum:
  "(ptr (msgb s) + (2 + 4 + 2 + 0 + 2) \<le> end_ptr (msgb s) \<longrightarrow>
      ptr (msgb (msgb_push_ack P seq s)) = ptr (msgb s) + (2 + 4 + 2 + 0 + 2)
      \<and> bytes_at (mem (msgb_push_ack P seq s)) (ptr (msgb (msgb_push_ack P seq s)) - 2) 2
          = le16 (crc_of P [])
      \<and> ptr (msgb (msgb_push_nak P s)) = ptr (msgb s) + (2 + 4 + 2 + 0 + 2)
      \<and> bytes_at (mem (msgb_push_nak P s)) (ptr (msgb (msgb_push_nak P s)) - 2) 2
          = le16 (crc_of P []))
   \<and> (ptr (msgb s) + (2 + 4 + 2 + (sizeof_ssh_command + unat (length_rqst r)) + 2)
         \<le> end_ptr (msgb s) \<longrightarrow>
      bytes_at (mem (msgb_push_cmd P seq rqid r s))
         (ptr (msgb (msgb_push_cmd P seq rqid r s)) - 2) 2
        = le16 (crc_of P (bytes_at (mem (msgb_push_cmd P seq rqid r s))
                 (ptr (msgb s) + 8) (sizeof_ssh_command + unat (length_rqst r))))
      \<and> ptr (msgb (msgb_push_cmd P seq rqid r s)) - 2
          = (ptr (msgb s) + 8) + (sizeof_ssh_command + unat (length_rqst r))
      \<and> bytes_at (mem (msgb_push_cmd P seq rqid r s))
                 (ptr (msgb s) + 8) (sizeof_ssh_command + unat (length_rqst r))
        = ([SSH_PLD_TYPE_CMD P, target_category r, target_id r, 0, instance_id r] @ le16 rqid
             @ [command_id r])
          @ bytes_at (mem (msgb_push_cmd P seq rqid r s))
                 (ptr (msgb s) + 8 + sizeof_ssh_command) (unat (length_rqst r)))"
proof -
  let ?n = "unat (length_rqst r)"
  let ?c = "msgb_push_cmd P seq rqid r s"
  have "ptr (msgb s) + 18 + ?n \<le> end_ptr (msgb s) \<Longrightarrow>
      bytes_at (mem ?c) (ptr (msgb ?c) - 2) 2
        = le16 (crc_of P (bytes_at (mem ?c) (ptr (msgb s) + 8) (sizeof_ssh_command + ?n)))"
    by (simp add: msgb_defs Let_def le16_def add.commute)
  moreover have "ptr (msgb s) + 18 + ?n \<le> end_ptr (msgb s) \<Longrightarrow>
      ptr (msgb ?c) - 2 = (ptr (msgb s) + 8) + (sizeof_ssh_command + ?n)"
    by (simp add: msgb_defs Let_def)
  moreover have "ptr (msgb s) + 18 + ?n \<le> end_ptr (msgb s) \<Longrightarrow>
      bytes_at (mem ?c) (ptr (msgb s) + 8) (sizeof_ssh_command + ?n)
        = ([SSH_PLD_TYPE_CMD P, target_category r, target_id r, 0, instance_id r] @ le16 rqid
             @ [command_id r])
          @ bytes_at (mem ?c) (ptr (msgb s) + 8 + sizeof_ssh_command) ?n"
    using cmd_header_bytes [of s P seq rqid r]
    by (simp only: cmd_split) (simp add: sizeof_ssh_command_def)
  moreover have "ptr (msgb s) + (2 + 4 + 2 + (sizeof_ssh_command + ?n) + 2) \<le> end_ptr (msgb s)
      \<longleftrightarrow> ptr (msgb s) + 18 + ?n \<le> end_ptr (msgb s)"
    unfolding sizeof_ssh_command_def by arith
  moreover have "ptr (msgb s) + 10 \<le> end_ptr (msgb s) \<Longrightarrow>
      ptr (msgb (msgb_push_ack P seq s)) = ptr (msgb s) + (2 + 4 + 2 + 0 + 2)
      \<and> bytes_at (mem (msgb_push_ack P seq s)) (ptr (msgb (msgb_push_ack P seq s)) - 2) 2
          = le16 (crc_of P [])"
    by (simp add: msgb_defs Let_def le16_def)
  moreover have "ptr (msgb s) + 10 \<le> end_ptr (msgb s) \<Longrightarrow>
      ptr (msgb (msgb_push_nak P s)) = ptr (msgb s) + (2 + 4 + 2 + 0 + 2)
      \<and> bytes_at (mem (msgb_push_nak P s)) (ptr (msgb (msgb_push_nak P s)) - 2) 2
          = le16 (crc_of P [])"
    by (simp add: msgb_defs Let_def le16_def)
  moreover have "ptr (msgb s) + (2 + 4 + 2 + 0 + 2) \<le> end_ptr (msgb s)
      \<longleftrightarrow> ptr (msgb s) + 10 \<le> end_ptr (msgb s)"
    by simp
  ultimately show ?thesis
    by blast
qed

theorem payload_checksum_witness:
  "ptr (msgb used_machine) + (2 + 4 + 2 + 0 + 2) \<le> end_ptr (msgb used_machine)
   \<and> ptr (msgb (msgb_push_ack test_protocol 5 used_machine)) = 20
   \<and> bytes_at (mem (msgb_push_ack test_protocol 5 used_machine)) 18 2 = le16 (test_crc [])
   \<and> ptr (msgb used_machine)
        + (2 + 4 + 2 + (sizeof_ssh_command + unat (length_rqst test_request)) + 2)
      \<le> end_ptr (msgb used_machine)
   \<and> ptr (msgb (msgb_push_cmd test_protocol 1 7 test_request used_machine)) - 2 = 28
   \<and> bytes_at (mem (msgb_push_cmd test_protocol 1 7 test_request used_machine)) 28 2
       = le16 (test_crc [0x80, 0x02, 0x01, 0x00, 0x00, 0x07, 0x00, 0x09, 0xDE, 0xAD])
   \<and> bytes_at (mem (msgb_push_cmd test_protocol 1 7 test_request used_machine)) 18 10
       = [0x80, 0x02, 0x01, 0x00, 0x00, 0x07, 0x00, 0x09, 0xDE, 0xAD]
   \<and> le16 (test_crc [0x80, 0x02, 0x01, 0x00, 0x00, 0x07, 0x00, 0x09, 0xDE, 0xAD]) = [0x1E, 0x02]"
  using payload_checksum [where s = used_machine and P = test_protocol and seq = 5]
    payload_checksum [where s = used_machine and P = test_protocol and seq = 1
      and r = test_request and rqid = 7]
  by (simp add: msgb_defs test_defs Let_def le16_def memcpy_def)

subsection \<open>The checksum of the frame header\<close>

text \<open>
  Claim C4. For every type, payload length and sequence number: when the 4 bytes of the frame
  header fit, the checksum that \<^verbatim>\<open>msgb_push_frame\<close> hands to the 16-bit append is the
  checksum of exactly the 4 header bytes it has just stored (the range from the old \<open>ptr\<close> to
  the new one); when the checksum fits as well it follows the header, little-endian. In a
  complete message the 2 bytes at offset 6 are the checksum of the bytes at offsets 2 to 5.
\<close>

theorem frame_checksum:
  "(ptr (msgb s) + sizeof_ssh_frame \<le> end_ptr (msgb s) \<longrightarrow>
      msgb_push_frame P ty len seq s
        = msgb_push_u16 (crc_of P ([ty] @ le16 len @ [seq]))
            (s\<lparr>mem := (mem s)(ptr (msgb s) := ty, ptr (msgb s) + 1 := ucast len,
                       ptr (msgb s) + 2 := ucast (drop_bit 8 len), ptr (msgb s) + 3 := seq),
               msgb := (msgb s)\<lparr>ptr := ptr (msgb s) + sizeof_ssh_frame\<rparr>\<rparr>))
   \<and> (ptr (msgb s) + sizeof_ssh_frame + 2 \<le> end_ptr (msgb s) \<longrightarrow>
      bytes_at (mem (msgb_push_frame P ty len seq s)) (ptr (msgb s)) sizeof_ssh_frame
        = [ty] @ le16 len @ [seq]
      \<and> bytes_at (mem (msgb_push_frame P ty len seq s)) (ptr (msgb s) + sizeof_ssh_frame) 2
        = le16 (crc_of P (bytes_at (mem (msgb_push_frame P ty len seq s)) (ptr (msgb s))
                  sizeof_ssh_frame))
      \<and> ptr (msgb (msgb_push_frame P ty len seq s)) = ptr (msgb s) + sizeof_ssh_frame + 2)
   \<and> (2 + 4 + 2 + 0 + 2 \<le> cap \<longrightarrow>
      bytes_at (mem (msgb_push_ack P seq (msgb_init buf cap s))) (buf + 6) 2
        = le16 (crc_of P (bytes_at (mem (msgb_push_ack P seq (msgb_init buf cap s))) (buf + 2) 4))
      \<and> bytes_at (mem (msgb_push_nak P (msgb_init buf cap s))) (buf + 6) 2
        = le16 (crc_of P (bytes_at (mem (msgb_push_nak P (msgb_init buf cap s))) (buf + 2) 4)))
   \<and> (2 + 4 + 2 + (sizeof_ssh_command + unat (length_rqst r)) + 2 \<le> cap \<longrightarrow>
      bytes_at (mem (msgb_push_cmd P seq rqid r (msgb_init buf cap s))) (buf + 6) 2
        = le16 (crc_of P (bytes_at (mem (msgb_push_cmd P seq rqid r (msgb_init buf cap s)))
                  (buf + 2) 4)))"
  by (simp add: msgb_defs Let_def le16_def memcpy_def)

theorem frame_checksum_witness:
  "ptr (msgb (msgb_init 0 16 test_machine)) + sizeof_ssh_frame + 2
      \<le> end_ptr (msgb (msgb_init 0 16 test_machine))
   \<and> bytes_at (mem (msgb_push_frame test_protocol 1 0 5 (msgb_init 0 16 test_machine))) 0 6
       = [0x01, 0x00, 0x00, 0x05, 0x06, 0x00]
   \<and> ptr (msgb (msgb_init 0 5 test_machine)) + sizeof_ssh_frame
      \<le> end_ptr (msgb (msgb_init 0 5 test_machine))
   \<and> warn_count (msgb_push_frame test_protocol 1 0 5 (msgb_init 0 5 test_machine)) = 1
   \<and> ptr (msgb (msgb_push_frame test_protocol 1 0 5 (msgb_init 0 5 test_machine))) = 4
   \<and> (2 + 4 + 2 + 0 + 2 \<le> (16::nat))
   \<and> bytes_at (mem (msgb_push_ack test_protocol 5 (msgb_init 0 16 test_machine))) 6 2
       = [0x06, 0x00]
   \<and> (2 + 4 + 2 + (sizeof_ssh_command + unat (length_rqst test_request)) + 2 \<le> (32::nat))
   \<and> bytes_at (mem (msgb_push_cmd test_protocol 1 7 test_request (msgb_init 0 32 test_machine))) 6 2
       = [0x0E, 0x00]"
  using frame_checksum [where s = "msgb_init 0 16 test_machine" and P = test_protocol
      and ty = 1 and len = 0 and seq = 5 and cap = 16 and buf = 0]
    frame_checksum [where s = "msgb_init 0 5 test_machine" and P = test_protocol
      and ty = 1 and len = 0 and seq = 5 and cap = 16 and buf = 0]
    frame_checksum [where s = test_machine and P = test_protocol
      and seq = 5 and cap = 16 and buf = 0]
    frame_checksum [where s = test_machine and P = test_protocol
      and seq = 1 and cap = 32 and buf = 0 and r = test_request and rqid = 7]
  by (simp add: msgb_defs test_defs Let_def le16_def memcpy_def)

subsection \<open>The layout of a command message\<close>

text \<open>
  The claim C5 as the specification states it fails on four inputs. With the longest payload a
  16-bit length can announce, the payload-length field of the frame header holds 7, not
  \<open>sizeof(struct ssh_command) + rqst->length = 65543\<close>: the sum is cut to 16 bits. With a
  payload pointer into the buffer itself the bytes copied are the SYN bytes just stored, not
  the bytes the payload held at the call. With a buffer of 10 bytes no command header is
  stored at all, and with a buffer of 5 bytes not even the frame header with its length field.
\<close>

theorem push_cmd_layout_counterexample:
  "read_le16 (mem (msgb_push_cmd test_protocol 1 7 long_request (msgb_init 0 65553 test_machine))) 3
      = 7
   \<and> sizeof_ssh_command + unat (length_rqst long_request) = 65543
   \<and> bytes_at (mem (msgb_push_cmd test_protocol 1 7 alias_request (msgb_init 0 32 test_machine)))
        16 2 = [0xAA, 0xAA]
   \<and> bytes_at (mem test_machine) (payload alias_request) (unat (length_rqst alias_request))
        = [0x00, 0x00]
   \<and> bytes_at (mem (msgb_push_cmd test_protocol 1 7 test_request (msgb_init 0 10 test_machine)))
        8 8 = [0, 0, 0, 0, 0, 0, 0, 0]
   \<and> SSH_PLD_TYPE_CMD test_protocol = 0x80
   \<and> read_le16 (mem (msgb_push_cmd test_protocol 1 7 test_request (msgb_init 0 5 test_machine))) 3
      = 0
   \<and> sizeof_ssh_command + unat (length_rqst test_request) = 10"
proof -
  have "read_le16 (mem (msgb_push_cmd test_protocol 1 7 long_request
            (msgb_init 0 65553 test_machine))) 3 = 7
      \<and> sizeof_ssh_command + unat (length_rqst long_request) = 65543"
    using cmd_length_field [of "msgb_init 0 65553 test_machine" test_protocol 1 7 long_request]
    by (simp add: long_request_def sizeof_ssh_command_def sizeof_ssh_frame_def msgb_init_def)
  moreover have "bytes_at (mem (msgb_push_cmd test_protocol 1 7 alias_request
            (msgb_init 0 32 test_machine))) 16 2 = [0xAA, 0xAA]
      \<and> bytes_at (mem test_machine) (payload alias_request) (unat (length_rqst alias_request))
        = [0x00, 0x00]"
    by (simp add: msgb_defs test_defs alias_request_def Let_def memcpy_def)
  moreover have "bytes_at (mem (msgb_push_cmd test_protocol 1 7 test_request
            (msgb_init 0 10 test_machine))) 8 8 = [0, 0, 0, 0, 0, 0, 0, 0]
      \<and> SSH_PLD_TYPE_CMD test_protocol = 0x80"
    by (simp add: msgb_defs test_defs Let_def memcpy_def)
  moreover have "read_le16 (mem (msgb_push_cmd test_protocol 1 7 test_request
            (msgb_init 0 5 test_machine))) 3 = 0
      \<and> sizeof_ssh_command + unat (length_rqst test_request) = 10"
    by (simp add: msgb_defs test_defs Let_def memcpy_def read_le16_def)
  ultimately show ?thesis by simp
qed

text \<open>
  Claim C5, amended. From any state of the buffer: when the SYN and the frame header fit (6
  bytes), \<^verbatim>\<open>msgb_push_cmd(seq, rqid, rqst)\<close> writes the payload-length field of the frame
  header as \<open>sizeof(struct ssh_command) + rqst->length\<close> reduced modulo \<open>2^16\<close>, which is
  the sum itself whenever the sum is below \<open>2^16\<close>. When the header checksum and the command
  header fit as well (16 bytes), it writes the command header in the order payload-type tag,
  target category, outbound target id, inbound target id \<open>= 0\<close>, instance id, request id
  (little-endian, 2 bytes), command id; and, when the payload does not overlap these 16 bytes
  or its own place after them, the bytes that follow are the payload bytes as they were at the
  call.
\<close>

theorem push_cmd_layout:
  "(ptr (msgb s) + 2 + sizeof_ssh_frame \<le> end_ptr (msgb s) \<longrightarrow>
     read_le16 (mem (msgb_push_cmd P seq rqid r s)) (ptr (msgb s) + 3)
       = (sizeof_ssh_command + unat (length_rqst r)) mod 2 ^ 16
     \<and> (sizeof_ssh_command + unat (length_rqst r) < 2 ^ 16 \<longrightarrow>
          read_le16 (mem (msgb_push_cmd P seq rqid r s)) (ptr (msgb s) + 3)
            = sizeof_ssh_command + unat (length_rqst r)))
   \<and> (ptr (msgb s) + 2 + sizeof_ssh_frame + 2 + sizeof_ssh_command \<le> end_ptr (msgb s) \<longrightarrow>
     bytes_at (mem (msgb_push_cmd P seq rqid r s)) (ptr (msgb s) + 8) sizeof_ssh_command
         = [SSH_PLD_TYPE_CMD P, target_category r, target_id r, 0x00, instance_id r]
           @ le16 rqid @ [command_id r]
     \<and> (payload r + unat (length_rqst r) \<le> ptr (msgb s)
          \<or> ptr (msgb s) + 8 + sizeof_ssh_command + unat (length_rqst r) \<le> payload r \<longrightarrow>
          bytes_at (mem (msgb_push_cmd P seq rqid r s))
             (ptr (msgb s) + 8 + sizeof_ssh_command) (unat (length_rqst r))
            = bytes_at (mem s) (payload r) (unat (length_rqst r))))"
proof (intro conjI impI)
  let ?m = "mem (msgb_push_cmd P seq rqid r s)"
  assume "ptr (msgb s) + 2 + sizeof_ssh_frame \<le> end_ptr (msgb s)"
  then have f: "read_le16 ?m (ptr (msgb s) + 3)
      = (sizeof_ssh_command + unat (length_rqst r)) mod 65536"
    by (rule cmd_length_field)
  then show "read_le16 ?m (ptr (msgb s) + 3)
      = (sizeof_ssh_command + unat (length_rqst r)) mod 2 ^ 16"
    by simp
  assume "sizeof_ssh_command + unat (length_rqst r) < 2 ^ 16"
  with f show "read_le16 ?m (ptr (msgb s) + 3) = sizeof_ssh_command + unat (length_rqst r)"
    by simp
next
  let ?m = "mem (msgb_push_cmd P seq rqid r s)"
  assume "ptr (msgb s) + 2 + sizeof_ssh_frame + 2 + sizeof_ssh_command \<le> end_ptr (msgb s)"
  then have room: "ptr (msgb s) + 8 + sizeof_ssh_command \<le> end_ptr (msgb s)"
    by (simp add: sizeof_ssh_frame_def)
  show "bytes_at ?m (ptr (msgb s) + 8) sizeof_ssh_command
      = [SSH_PLD_TYPE_CMD P, target_category r, target_id r, 0x00, instance_id r]
        @ le16 rqid @ [command_id r]"
    using cmd_header_bytes [OF room, of P seq rqid r]
    by (simp only: sizeof_ssh_command_def)
  assume sep: "payload r + unat (length_rqst r) \<le> ptr (msgb s)
      \<or> ptr (msgb s) + 8 + sizeof_ssh_command + unat (length_rqst r) \<le> payload r"
  have off: "ptr (msgb s) + 8 + sizeof_ssh_command = ptr (msgb s) + 16"
    by (simp add: sizeof_ssh_command_def)
  from sep have sep': "payload r + unat (length_rqst r) \<le> ptr (msgb s)
      \<or> ptr (msgb s) + 16 + unat (length_rqst r) \<le> payload r"
    unfolding sizeof_ssh_command_def by arith
  show "bytes_at ?m (ptr (msgb s) + 8 + sizeof_ssh_command) (unat (length_rqst r))
      = bytes_at (mem s) (payload r) (unat (length_rqst r))"
    unfolding off using room sep' by (rule cmd_payload_bytes)
qed

theorem push_cmd_layout_witness:
  "ptr (msgb used_machine) + 2 + sizeof_ssh_frame \<le> end_ptr (msgb used_machine)
   \<and> ptr (msgb used_machine) + 2 + sizeof_ssh_frame + 2 + sizeof_ssh_command
      \<le> end_ptr (msgb used_machine)
   \<and> sizeof_ssh_command + unat (length_rqst test_request) < 2 ^ 16
   \<and> (payload test_request + unat (length_rqst test_request) \<le> ptr (msgb used_machine)
        \<or> ptr (msgb used_machine) + 8 + sizeof_ssh_command + unat (length_rqst test_request)
             \<le> payload test_request)
   \<and> read_le16 (mem (msgb_push_cmd test_protocol 1 7 test_request used_machine)) (10 + 3) = 10
   \<and> bytes_at (mem (msgb_push_cmd test_protocol 1 7 test_request used_machine)) (10 + 8) 8
       = [0x80, 0x02, 0x01, 0x00, 0x00, 0x07, 0x00, 0x09]
   \<and> bytes_at (mem (msgb_push_cmd test_protocol 1 7 test_request used_machine)) (10 + 8 + 8) 2
       = [0xDE, 0xAD]"
  using push_cmd_layout [where s = used_machine and P = test_protocol and seq = 1
      and r = test_request and rqid = 7]
  by (simp add: test_defs sizeof_ssh_command_def sizeof_ssh_frame_def le16_def)

subsection \<open>A command that stops at its capacity check\<close>

text \<open>
  The claim C10 as stated fails in two details. By the same cut to 16 bits as in claim C5: with
  the longest payload, in a buffer of 8 bytes, the payload-length field left behind holds 7,
  not \<open>sizeof(struct ssh_command) + rqst->length = 65543\<close>. And in a buffer of 6 bytes the
  SYN and the frame header fit, the check for the command header fails, but no header checksum
  is left in the buffer: 6 bytes are used and \<^verbatim>\<open>WARN_ON\<close> has fired twice.
\<close>

theorem push_cmd_not_atomic_counterexample:
  "ptr (msgb (msgb_init 0 8 test_machine)) + 8 \<le> end_ptr (msgb (msgb_init 0 8 test_machine))
   \<and> end_ptr (msgb (msgb_init 0 8 test_machine))
        < ptr (msgb (msgb_init 0 8 test_machine)) + 8 + sizeof_ssh_command
   \<and> read_le16 (mem (msgb_push_cmd test_protocol 1 7 long_request (msgb_init 0 8 test_machine))) 3
        = 7
   \<and> sizeof_ssh_command + unat (length_rqst long_request) = 65543
   \<and> bytes_at (mem (msgb_push_cmd test_protocol 1 7 test_request (msgb_init 0 6 test_machine)))
        0 6 = [0xAA, 0xAA, 0x03, 0x0A, 0x00, 0x01]
   \<and> msgb_bytes_used (msgb_push_cmd test_protocol 1 7 test_request (msgb_init 0 6 test_machine))
        = 6
   \<and> warn_count (msgb_push_cmd test_protocol 1 7 test_request (msgb_init 0 6 test_machine)) = 2"
  by (simp add: msgb_defs test_defs long_request_def Let_def read_le16_def)

text \<open>
  Claim C10, amended. \<^verbatim>\<open>msgb_push_cmd\<close> is not atomic on a capacity failure: when the SYN,
  the frame header and the header checksum fit (8 bytes) but the check for the command header
  fails, it returns with these 8 bytes left in the buffer, the payload-length field holding
  \<open>sizeof(struct ssh_command) + rqst->length\<close> reduced modulo \<open>2^16\<close> (the sum itself
  whenever it is below \<open>2^16\<close>); no other byte is written, so no command header, no payload
  and no payload checksum; \<open>ptr\<close> stays advanced by 8, one \<^verbatim>\<open>WARN_ON\<close> is reported, and
  the state is not the state before the call.
\<close>

theorem push_cmd_not_atomic:
  "ptr (msgb s) + 8 \<le> end_ptr (msgb s)
   \<and> end_ptr (msgb s) < ptr (msgb s) + 8 + sizeof_ssh_command \<longrightarrow>
     bytes_at (mem (msgb_push_cmd P seq rqid r s)) (ptr (msgb s)) 8
       = le16 (SSH_MSG_SYN P)
         @ [SSH_FRAME_TYPE_DATA_SEQ P]
         @ le16 (word_of_nat (sizeof_ssh_command + unat (length_rqst r))) @ [seq]
         @ le16 (crc_of P ([SSH_FRAME_TYPE_DATA_SEQ P]
                   @ le16 (word_of_nat (sizeof_ssh_command + unat (length_rqst r))) @ [seq]))
     \<and> read_le16 (mem (msgb_push_cmd P seq rqid r s)) (ptr (msgb s) + 3)
         = (sizeof_ssh_command + unat (length_rqst r)) mod 2 ^ 16
     \<and> (sizeof_ssh_command + unat (length_rqst r) < 2 ^ 16 \<longrightarrow>
          read_le16 (mem (msgb_push_cmd P seq rqid r s)) (ptr (msgb s) + 3)
            = sizeof_ssh_command + unat (length_rqst r))
     \<and> (a < ptr (msgb s) \<or> ptr (msgb s) + 8 \<le> a \<longrightarrow>
          mem (msgb_push_cmd P seq rqid r s) a = mem s a)
     \<and> msgb (msgb_push_cmd P seq rqid r s) = (msgb s)\<lparr>ptr := ptr (msgb s) + 8\<rparr>
     \<and> warn_count (msgb_push_cmd P seq rqid r s) = Suc (warn_count s)
     \<and> msgb_push_cmd P seq rqid r s \<noteq> s"
proof
  assume "ptr (msgb s) + 8 \<le> end_ptr (msgb s)
     \<and> end_ptr (msgb s) < ptr (msgb s) + 8 + sizeof_ssh_command"
  then have fit: "ptr (msgb s) + 8 \<le> end_ptr (msgb s)"
    and stop: "end_ptr (msgb s) < ptr (msgb s) + 8 + sizeof_ssh_command"
    by simp_all
  let ?s' = "msgb_push_cmd P seq rqid r s"
  have b: "bytes_at (mem ?s') (ptr (msgb s)) 8
       = le16 (SSH_MSG_SYN P)
         @ [SSH_FRAME_TYPE_DATA_SEQ P]
         @ le16 (word_of_nat (sizeof_ssh_command + unat (length_rqst r))) @ [seq]
         @ le16 (crc_of P ([SSH_FRAME_TYPE_DATA_SEQ P]
                   @ le16 (word_of_nat (sizeof_ssh_command + unat (length_rqst r))) @ [seq]))"
    using fit stop by (simp add: msgb_defs Let_def le16_def)
  have f: "read_le16 (mem ?s') (ptr (msgb s) + 3)
         = (sizeof_ssh_command + unat (length_rqst r)) mod 2 ^ 16"
  proof -
    have lo: "mem ?s' (ptr (msgb s) + 3)
        = ucast (word_of_nat (sizeof_ssh_command + unat (length_rqst r)) :: u16)"
      using fit stop by (rule cmd_abort(2))
    have hi: "mem ?s' (Suc (ptr (msgb s) + 3))
        = ucast (drop_bit 8 (word_of_nat (sizeof_ssh_command + unat (length_rqst r)) :: u16))"
      using fit stop by (rule cmd_abort(3))
    from lo hi have "read_le16 (mem ?s') (ptr (msgb s) + 3)
        = (sizeof_ssh_command + unat (length_rqst r)) mod 65536"
      by (rule read_le16_of_nat)
    then show ?thesis by simp
  qed
  have o: "a < ptr (msgb s) \<or> ptr (msgb s) + 8 \<le> a \<longrightarrow> mem ?s' a = mem s a"
    using fit stop by (auto simp add: msgb_defs Let_def)
  have m: "msgb ?s' = (msgb s)\<lparr>ptr := ptr (msgb s) + 8\<rparr>"
    and w: "warn_count ?s' = Suc (warn_count s)"
    using fit stop by (simp_all add: msgb_defs Let_def)
  from w have n: "?s' \<noteq> s" by auto
  from b f o m w n show "bytes_at (mem ?s') (ptr (msgb s)) 8
       = le16 (SSH_MSG_SYN P)
         @ [SSH_FRAME_TYPE_DATA_SEQ P]
         @ le16 (word_of_nat (sizeof_ssh_command + unat (length_rqst r))) @ [seq]
         @ le16 (crc_of P ([SSH_FRAME_TYPE_DATA_SEQ P]
                   @ le16 (word_of_nat (sizeof_ssh_command + unat (length_rqst r))) @ [seq]))
     \<and> read_le16 (mem ?s') (ptr (msgb s) + 3)
         = (sizeof_ssh_command + unat (length_rqst r)) mod 2 ^ 16
     \<and> (sizeof_ssh_command + unat (length_rqst r) < 2 ^ 16 \<longrightarrow>
          read_le16 (mem ?s') (ptr (msgb s) + 3) = sizeof_ssh_command + unat (length_rqst r))
     \<and> (a < ptr (msgb s) \<or> ptr (msgb s) + 8 \<le> a \<longrightarrow> mem ?s' a = mem s a)
     \<and> msgb ?s' = (msgb s)\<lparr>ptr := ptr (msgb s) + 8\<rparr>
     \<and> warn_count ?s' = Suc (warn_count s)
     \<and> ?s' \<noteq> s"
    by simp
qed

theorem push_cmd_not_atomic_witness:
  "ptr (msgb (msgb_init 0 12 test_machine)) + 8 \<le> end_ptr (msgb (msgb_init 0 12 test_machine))
   \<and> end_ptr (msgb (msgb_init 0 12 test_machine))
        < ptr (msgb (msgb_init 0 12 test_machine)) + 8 + sizeof_ssh_command
   \<and> sizeof_ssh_command + unat (length_rqst test_request) < 2 ^ 16
   \<and> (8 < ptr (msgb (msgb_init 0 12 test_machine))
        \<or> ptr (msgb (msgb_init 0 12 test_machine)) + 8 \<le> 8)
   \<and> bytes_at (mem (msgb_push_cmd test_protocol 1 7 test_request (msgb_init 0 12 test_machine)))
        0 8 = [0xAA, 0xAA, 0x03, 0x0A, 0x00, 0x01, 0x0E, 0x00]
   \<and> read_le16 (mem (msgb_push_cmd test_protocol 1 7 test_request (msgb_init 0 12 test_machine)))
        3 = 10
   \<and> mem (msgb_push_cmd test_protocol 1 7 test_request (msgb_init 0 12 test_machine)) 8 = 0
   \<and> msgb_bytes_used (msgb_push_cmd test_protocol 1 7 test_request (msgb_init 0 12 test_machine))
        = 8
   \<and> warn_count (msgb_push_cmd test_protocol 1 7 test_request (msgb_init 0 12 test_machine)) = 1"
  using push_cmd_not_atomic [where s = "msgb_init 0 12 test_machine" and P = test_protocol
      and seq = 1 and rqid = 7 and r = test_request and a = 8]
  by (simp add: msgb_init_def msgb_bytes_used_def test_defs sizeof_ssh_command_def le16_def)

subsection \<open>The invariant of the buffer\<close>

lemma push_cmd_inv_iff:
  assumes inv: "msgb_inv (msgb s)"
  shows "msgb_inv (msgb (msgb_push_cmd P seq rqid r s)) \<longleftrightarrow>
     (end_ptr (msgb s) < ptr (msgb s) + 8 + sizeof_ssh_command
      \<or> ptr (msgb s) + 8 + sizeof_ssh_command + unat (length_rqst r) \<le> end_ptr (msgb s))"
proof
  assume after: "msgb_inv (msgb (msgb_push_cmd P seq rqid r s))"
  show "end_ptr (msgb s) < ptr (msgb s) + 8 + sizeof_ssh_command
      \<or> ptr (msgb s) + 8 + sizeof_ssh_command + unat (length_rqst r) \<le> end_ptr (msgb s)"
  proof (rule ccontr)
    assume "\<not> ?thesis"
    then have hdr: "ptr (msgb s) + 8 + sizeof_ssh_command \<le> end_ptr (msgb s)"
      and over: "end_ptr (msgb s) < ptr (msgb s) + 8 + sizeof_ssh_command + unat (length_rqst r)"
      by simp_all
    from push_cmd_overrun [OF hdr over] after show False by simp
  qed
next
  assume "end_ptr (msgb s) < ptr (msgb s) + 8 + sizeof_ssh_command
      \<or> ptr (msgb s) + 8 + sizeof_ssh_command + unat (length_rqst r) \<le> end_ptr (msgb s)"
  with inv have "stays_within s (msgb_push_cmd P seq rqid r s)" by (rule push_cmd_within)
  then show "msgb_inv (msgb (msgb_push_cmd P seq rqid r s))" by (rule within_inv)
qed

text \<open>
  The claim C2 as stated fails for the raw append and for the command encoder, neither of
  which checks the length of what it copies. In a buffer of 1 byte \<^verbatim>\<open>msgb_push_buf\<close> with 2
  bytes stores a byte at the address \<open>end\<close> and leaves \<open>ptr\<close> beyond \<open>end\<close>, with 2
  bytes used; in a buffer of 17 bytes \<^verbatim>\<open>msgb_push_cmd\<close> with a payload of 2 bytes does the
  same at address 17, with 18 bytes used.
\<close>

theorem buffer_invariant_counterexample:
  "msgb_inv (msgb (msgb_init 0 1 test_machine))
   \<and> \<not> msgb_inv (msgb (msgb_push_buf 100 2 (msgb_init 0 1 test_machine)))
   \<and> end_ptr (msgb (msgb_push_buf 100 2 (msgb_init 0 1 test_machine))) = 1
   \<and> ptr (msgb (msgb_push_buf 100 2 (msgb_init 0 1 test_machine))) = 2
   \<and> mem (msgb_init 0 1 test_machine) 1 = 0x00
   \<and> mem (msgb_push_buf 100 2 (msgb_init 0 1 test_machine)) 1 = 0xAD
   \<and> msgb_bytes_used (msgb_push_buf 100 2 (msgb_init 0 1 test_machine)) = 2
   \<and> msgb_inv (msgb (msgb_init 0 17 test_machine))
   \<and> \<not> msgb_inv (msgb (msgb_push_cmd test_protocol 1 7 test_request (msgb_init 0 17 test_machine)))
   \<and> end_ptr (msgb (msgb_push_cmd test_protocol 1 7 test_request (msgb_init 0 17 test_machine)))
        = 17
   \<and> ptr (msgb (msgb_push_cmd test_protocol 1 7 test_request (msgb_init 0 17 test_machine))) = 18
   \<and> mem (msgb_init 0 17 test_machine) 17 = 0x00
   \<and> mem (msgb_push_cmd test_protocol 1 7 test_request (msgb_init 0 17 test_machine)) 17 = 0xAD
   \<and> msgb_bytes_used (msgb_push_cmd test_protocol 1 7 test_request (msgb_init 0 17 test_machine))
        = 18"
  by (simp add: msgb_defs test_defs msgb_inv_def Let_def memcpy_def)

text \<open>
  Claim C2, amended. \<^verbatim>\<open>msgb_init\<close> establishes \<open>begin \<le> ptr \<le> end\<close> and writes no
  byte. From every state with \<open>begin \<le> ptr \<le> end\<close>: \<^verbatim>\<open>msgb_bytes_used\<close> is at most the
  capacity, and \<^verbatim>\<open>msgb_push_u16\<close>, \<^verbatim>\<open>msgb_push_syn\<close>, \<^verbatim>\<open>msgb_push_crc\<close>,
  \<^verbatim>\<open>msgb_push_frame\<close>, \<^verbatim>\<open>msgb_push_ack\<close> and \<^verbatim>\<open>msgb_push_nak\<close>, for every argument,
  keep the invariant, never move \<open>ptr\<close> past \<open>end\<close>, write no byte outside the buffer and
  keep the bytes used within the capacity. \<^verbatim>\<open>msgb_push_buf\<close> does so exactly when its
  \<open>len\<close> bytes fit in the remaining capacity, and \<^verbatim>\<open>msgb_push_cmd\<close> exactly when the
  command header does not fit (the call stops at its check) or the command header and the
  whole payload fit.
\<close>

theorem buffer_invariant:
  "msgb_inv (msgb (msgb_init p cap s0))
   \<and> mem (msgb_init p cap s0) = mem s0
   \<and> msgb_bytes_used (msgb_init p cap s0) = 0
   \<and> (msgb_inv (msgb s) \<longrightarrow>
        msgb_bytes_used s \<le> end_ptr (msgb s) - begin_ptr (msgb s)
        \<and> stays_within s (msgb_push_u16 val s)
        \<and> stays_within s (msgb_push_syn P s)
        \<and> stays_within s (msgb_push_crc P buf len s)
        \<and> stays_within s (msgb_push_frame P ty flen seq s)
        \<and> stays_within s (msgb_push_ack P seq s)
        \<and> stays_within s (msgb_push_nak P s)
        \<and> (ptr (msgb s) + n \<le> end_ptr (msgb s) \<longrightarrow> stays_within s (msgb_push_buf src n s))
        \<and> (msgb_inv (msgb (msgb_push_buf src n s)) \<longleftrightarrow> ptr (msgb s) + n \<le> end_ptr (msgb s))
        \<and> (end_ptr (msgb s) < ptr (msgb s) + 8 + sizeof_ssh_command
            \<or> ptr (msgb s) + 8 + sizeof_ssh_command + unat (length_rqst r) \<le> end_ptr (msgb s)
            \<longrightarrow> stays_within s (msgb_push_cmd P seq rqid r s))
        \<and> (msgb_inv (msgb (msgb_push_cmd P seq rqid r s)) \<longleftrightarrow>
             (end_ptr (msgb s) < ptr (msgb s) + 8 + sizeof_ssh_command
              \<or> ptr (msgb s) + 8 + sizeof_ssh_command + unat (length_rqst r)
                   \<le> end_ptr (msgb s))))"
proof (intro conjI impI)
  show "msgb_inv (msgb (msgb_init p cap s0))"
    by (simp add: msgb_init_def msgb_inv_def)
  show "mem (msgb_init p cap s0) = mem s0"
    by (simp add: msgb_init_def)
  show "msgb_bytes_used (msgb_init p cap s0) = 0"
    by (simp add: msgb_init_def msgb_bytes_used_def)
next
  assume inv: "msgb_inv (msgb s)"
  then show "msgb_bytes_used s \<le> end_ptr (msgb s) - begin_ptr (msgb s)"
    by (auto simp add: msgb_inv_def msgb_bytes_used_def)
  from inv show "stays_within s (msgb_push_u16 val s)" by (rule push_u16_within)
  from inv show "stays_within s (msgb_push_syn P s)" by (rule push_syn_within)
  from inv show "stays_within s (msgb_push_crc P buf len s)" by (rule push_crc_within)
  from inv show "stays_within s (msgb_push_frame P ty flen seq s)" by (rule push_frame_within)
  from inv show "stays_within s (msgb_push_ack P seq s)" by (rule push_ack_within)
  from inv show "stays_within s (msgb_push_nak P s)" by (rule push_nak_within)
  from inv show "msgb_inv (msgb (msgb_push_buf src n s)) \<longleftrightarrow> ptr (msgb s) + n \<le> end_ptr (msgb s)"
    by (rule push_buf_inv_iff)
  show "msgb_inv (msgb (msgb_push_cmd P seq rqid r s)) \<longleftrightarrow>
             (end_ptr (msgb s) < ptr (msgb s) + 8 + sizeof_ssh_command
              \<or> ptr (msgb s) + 8 + sizeof_ssh_command + unat (length_rqst r)
                   \<le> end_ptr (msgb s))"
    using inv by (rule push_cmd_inv_iff)
next
  assume "msgb_inv (msgb s)" and "ptr (msgb s) + n \<le> end_ptr (msgb s)"
  then show "stays_within s (msgb_push_buf src n s)" by (rule push_buf_within)
next
  assume "msgb_inv (msgb s)"
    and "end_ptr (msgb s) < ptr (msgb s) + 8 + sizeof_ssh_command
            \<or> ptr (msgb s) + 8 + sizeof_ssh_command + unat (length_rqst r) \<le> end_ptr (msgb s)"
  then show "stays_within s (msgb_push_cmd P seq rqid r s)" by (rule push_cmd_within)
qed

theorem buffer_invariant_witness:
  "msgb_inv (msgb (msgb_init 0 32 test_machine))
   \<and> stays_within (msgb_init 0 32 test_machine)
        (msgb_push_ack test_protocol 5 (msgb_init 0 32 test_machine))
   \<and> mem (msgb_push_ack test_protocol 5 (msgb_init 0 32 test_machine)) 32 = 0
   \<and> ptr (msgb (msgb_init 0 32 test_machine)) + 2 \<le> end_ptr (msgb (msgb_init 0 32 test_machine))
   \<and> stays_within (msgb_init 0 32 test_machine) (msgb_push_buf 100 2 (msgb_init 0 32 test_machine))
   \<and> msgb_inv (msgb (msgb_push_buf 100 2 (msgb_init 0 32 test_machine)))
   \<and> (end_ptr (msgb (msgb_init 0 32 test_machine))
          < ptr (msgb (msgb_init 0 32 test_machine)) + 8 + sizeof_ssh_command
        \<or> ptr (msgb (msgb_init 0 32 test_machine)) + 8 + sizeof_ssh_command
             + unat (length_rqst test_request) \<le> end_ptr (msgb (msgb_init 0 32 test_machine)))
   \<and> stays_within (msgb_init 0 32 test_machine)
        (msgb_push_cmd test_protocol 1 7 test_request (msgb_init 0 32 test_machine))
   \<and> msgb_inv (msgb (msgb_push_cmd test_protocol 1 7 test_request (msgb_init 0 32 test_machine)))
   \<and> msgb_bytes_used (msgb_push_cmd test_protocol 1 7 test_request (msgb_init 0 32 test_machine))
        \<le> 32"
proof -
  let ?s = "msgb_init 0 32 test_machine"
  have inv: "msgb_inv (msgb ?s)"
    by (simp add: msgb_init_def msgb_inv_def)
  have fit: "ptr (msgb ?s) + 2 \<le> end_ptr (msgb ?s)"
    by (simp add: msgb_init_def)
  have room: "end_ptr (msgb ?s) < ptr (msgb ?s) + 8 + sizeof_ssh_command
        \<or> ptr (msgb ?s) + 8 + sizeof_ssh_command + unat (length_rqst test_request)
             \<le> end_ptr (msgb ?s)"
    by (simp add: msgb_init_def sizeof_ssh_command_def test_request_def)
  note all = buffer_invariant [where s = ?s and P = test_protocol and seq = 5 and n = 2
      and src = 100 and r = test_request]
  note cmd = buffer_invariant [where s = ?s and P = test_protocol and seq = 1 and n = 2
      and src = 100 and r = test_request and rqid = 7]
  from all inv have ack: "stays_within ?s (msgb_push_ack test_protocol 5 ?s)" by blast
  then have "mem (msgb_push_ack test_protocol 5 ?s) 32 = mem ?s 32"
    unfolding stays_within_def by (simp add: msgb_init_def)
  then have byte: "mem (msgb_push_ack test_protocol 5 ?s) 32 = 0"
    by (simp add: msgb_init_def test_machine_def)
  from all inv fit have buf: "stays_within ?s (msgb_push_buf 100 2 ?s)"
    and buf_inv: "msgb_inv (msgb (msgb_push_buf 100 2 ?s))" by blast+
  from cmd inv room
  have c: "stays_within ?s (msgb_push_cmd test_protocol 1 7 test_request ?s)"
    and c_inv: "msgb_inv (msgb (msgb_push_cmd test_protocol 1 7 test_request ?s))" by blast+
  from c have used: "msgb_bytes_used (msgb_push_cmd test_protocol 1 7 test_request ?s) \<le> 32"
    unfolding stays_within_def by (simp add: msgb_init_def)
  from inv ack byte fit buf buf_inv room c c_inv used show ?thesis by blast
qed

end
